theory Spec2Isabelle
  imports Main "HOL-Library.Sublist"
begin

section \<open>The Factory class of factory.ts\<close>

text \<open>
  The class \<^verbatim>\<open>Factory<Model>\<close> builds plain objects for tests: a subclass supplies the
  blueprint \<^verbatim>\<open>definition()\<close>, callers may pass an object of overrides and may register
  state callbacks; \<^verbatim>\<open>make\<close> stamps out as many models as \<^verbatim>\<open>count\<close> asked for.

  Objects are mutable and shared by reference in the source (\<^verbatim>\<open>Object.assign\<close> writes into
  its first argument), so the model keeps an explicit store: an object is a map from
  property names to values, the heap is the sequence of the objects allocated so far, and
  an address is an index into it (allocation appends). An address beyond the heap stands
  for \<^verbatim>\<open>null\<close> or \<^verbatim>\<open>undefined\<close>. The type of property values is left open.
\<close>

type_synonym key = string
type_synonym addr = nat
type_synonym 'v obj = "key \<rightharpoonup> 'v"
type_synonym 'v heap = "'v obj list"

definition lookup :: "'v heap \<Rightarrow> addr \<Rightarrow> 'v obj option" where
  "lookup h a = (if a < length h then Some (h ! a) else None)"

text \<open>
  A thrown value is either an \<^verbatim>\<open>Error\<close> instance with its message, or any other value,
  kept as what \<^verbatim>\<open>String(error)\<close> renders it to. The catch clause of \<^verbatim>\<open>make\<close> reads
  \<^verbatim>\<open>error instanceof Error ? error.message : String(error)\<close>.
\<close>

datatype thrown = ErrorObj string | NonError string

fun message_of :: "thrown \<Rightarrow> string" where
  "message_of (ErrorObj message) = message"
| "message_of (NonError rendered) = rendered"

text \<open>
  The field \<^verbatim>\<open>instances\<close> and the argument of \<^verbatim>\<open>count\<close> have type \<^verbatim>\<open>number\<close>. The model
  holds the integer values and \<^verbatim>\<open>NaN\<close>; fractional and infinite values are not represented.
  A comparison with \<^verbatim>\<open>NaN\<close> on either side is false.
\<close>

datatype number = IntVal int | NaN

fun num_less :: "number \<Rightarrow> number \<Rightarrow> bool" where
  "num_less (IntVal a) (IntVal b) = (a < b)"
| "num_less _ _ = False"

text \<open>
  The blueprint and the state callbacks are code of the caller: they may read and write the
  heap, allocate, and throw. They receive no handle on the private fields of the factory,
  which therefore live outside the heap, in the record below. The field
  \<open>definition_fn\<close> is the subclass's method \<^verbatim>\<open>definition()\<close>.
\<close>

type_synonym 'v blueprint = "'v heap \<Rightarrow> (thrown + addr) \<times> 'v heap"
type_synonym 'v callback = "addr \<Rightarrow> 'v heap \<Rightarrow> (thrown + addr) \<times> 'v heap"

record 'v factory =
  stateCallbacks :: "'v callback list"
  instances :: number
  definition_fn :: "'v blueprint"

text \<open>The field initialisers: no callbacks, one instance.\<close>

definition new_factory :: "'v blueprint \<Rightarrow> 'v factory" where
  "new_factory d = \<lparr>stateCallbacks = [], instances = IntVal 1, definition_fn = d\<rparr>"

text \<open>\<^verbatim>\<open>count(amount)\<close>: throws when \<^verbatim>\<open>amount < 1\<close>, else stores the amount.\<close>

definition count :: "number \<Rightarrow> 'v factory \<Rightarrow> (thrown + unit) \<times> 'v factory" where
  "count amount f =
     (if num_less amount (IntVal 1) then (Inl (ErrorObj ''Count must be greater than 0''), f)
      else (Inr (), f\<lparr>instances := amount\<rparr>))"

text \<open>\<^verbatim>\<open>state(callback)\<close>: pushes the callback at the end of the list.\<close>

definition state :: "'v callback \<Rightarrow> 'v factory \<Rightarrow> 'v factory" where
  "state callback f = f\<lparr>stateCallbacks := stateCallbacks f @ [callback]\<rparr>"

text \<open>
  \<^verbatim>\<open>Object.assign(target, source)\<close>: a \<^verbatim>\<open>null\<close> or \<^verbatim>\<open>undefined\<close> target is a TypeError,
  such a source is skipped; otherwise every property of the source is written into the
  target, which is returned.
\<close>

definition object_assign :: "addr \<Rightarrow> addr \<Rightarrow> 'v heap \<Rightarrow> (thrown + addr) \<times> 'v heap" where
  "object_assign target source h =
     (case lookup h target of
        None \<Rightarrow> (Inl (ErrorObj ''Cannot convert undefined or null to object''), h)
      | Some t \<Rightarrow>
          (case lookup h source of
             None \<Rightarrow> (Inr target, h)
           | Some s \<Rightarrow> (Inr target, h[target := t ++ s])))"

text \<open>\<^verbatim>\<open>callbacks.reduce((acc, callback) => callback(acc), model)\<close>, left to right.\<close>

fun reduce_callbacks :: "'v callback list \<Rightarrow> addr \<Rightarrow> 'v heap \<Rightarrow> (thrown + addr) \<times> 'v heap" where
  "reduce_callbacks [] acc h = (Inr acc, h)"
| "reduce_callbacks (callback # rest) acc h =
     (case callback acc h of
        (Inl e, h') \<Rightarrow> (Inl e, h')
      | (Inr acc', h') \<Rightarrow> reduce_callbacks rest acc' h')"

text \<open>The body of the loop of \<^verbatim>\<open>make\<close>: blueprint, merge of the overrides, callbacks.\<close>

definition make_model :: "'v factory \<Rightarrow> addr \<Rightarrow> 'v heap \<Rightarrow> (thrown + addr) \<times> 'v heap" where
  "make_model f overrides h =
     (case definition_fn f h of
        (Inl e, h1) \<Rightarrow> (Inl e, h1)
      | (Inr blueprint, h1) \<Rightarrow>
          (case object_assign blueprint overrides h1 of
             (Inl e, h2) \<Rightarrow> (Inl e, h2)
           | (Inr model, h2) \<Rightarrow> reduce_callbacks (stateCallbacks f) model h2))"

text \<open>
  \<^verbatim>\<open>for (let i = 0; i < this.instances; i++) { ...; output.push(finalModel); }\<close>
  The loop ends at the first throw.
\<close>

function make_loop ::
  "'v factory \<Rightarrow> addr \<Rightarrow> int \<Rightarrow> addr list \<Rightarrow> 'v heap \<Rightarrow> (thrown + addr list) \<times> 'v heap" where
  "make_loop f overrides i output h =
     (if num_less (IntVal i) (instances f) then
        (case make_model f overrides h of
           (Inl e, h') \<Rightarrow> (Inl e, h')
         | (Inr finalModel, h') \<Rightarrow> make_loop f overrides (i + 1) (output @ [finalModel]) h')
      else (Inr output, h))"
  by pat_completeness auto
termination
  by (relation "measure (\<lambda>(f, overrides, i, output, h).
                  case instances f of IntVal n \<Rightarrow> nat (n - i) | NaN \<Rightarrow> 0)")
     (auto split: number.splits)

text \<open>
  \<^verbatim>\<open>make(overrides)\<close>: on a normal end of the loop the two fields are reset and the array
  is returned; a throw inside the \<^verbatim>\<open>try\<close> block skips the reset and is rethrown as a new
  \<^verbatim>\<open>Error\<close> with the prefixed message.
\<close>

definition make ::
  "'v factory \<Rightarrow> addr \<Rightarrow> 'v heap \<Rightarrow> (thrown + addr list) \<times> 'v factory \<times> 'v heap" where
  "make f overrides h =
     (case make_loop f overrides 0 [] h of
        (Inr output, h') \<Rightarrow> (Inr output, f\<lparr>stateCallbacks := [], instances := IntVal 1\<rparr>, h')
      | (Inl error, h') \<Rightarrow>
          (Inl (ErrorObj (''Failed to make model: '' @ message_of error)), f, h'))"

text \<open>
  \<^verbatim>\<open>makeOne(overrides)\<close> is \<^verbatim>\<open>this.make(overrides)[0]\<close>; element 0 of an empty array is
  \<^verbatim>\<open>undefined\<close>, here \<open>None\<close>.
\<close>

definition makeOne ::
  "'v factory \<Rightarrow> addr \<Rightarrow> 'v heap \<Rightarrow> (thrown + addr option) \<times> 'v factory \<times> 'v heap" where
  "makeOne f overrides h =
     (case make f overrides h of
        (Inl e, f', h') \<Rightarrow> (Inl e, f', h')
      | (Inr output, f', h') \<Rightarrow>
          (Inr (case output of [] \<Rightarrow> None | model # _ \<Rightarrow> Some model), f', h'))"

text \<open>\<^verbatim>\<open>create\<close> throws at once; \<^verbatim>\<open>createOne\<close> is \<^verbatim>\<open>this.create(overrides)[0]\<close>.\<close>

definition create ::
  "'v factory \<Rightarrow> addr \<Rightarrow> 'v heap \<Rightarrow> (thrown + addr list) \<times> 'v factory \<times> 'v heap" where
  "create f overrides h = (Inl (ErrorObj ''Must implement the DB layer to use Create.''), f, h)"

definition createOne ::
  "'v factory \<Rightarrow> addr \<Rightarrow> 'v heap \<Rightarrow> (thrown + addr option) \<times> 'v factory \<times> 'v heap" where
  "createOne f overrides h =
     (case create f overrides h of
        (Inl e, f', h') \<Rightarrow> (Inl e, f', h')
      | (Inr output, f', h') \<Rightarrow>
          (Inr (case output of [] \<Rightarrow> None | model # _ \<Rightarrow> Some model), f', h'))"

subsection \<open>The behaviour in the words of the specification\<close>

text \<open>
  The number of models a build call produces: the pending count when it is a positive
  integer, none otherwise.
\<close>

definition iterations :: "'v factory \<Rightarrow> nat" where
  "iterations f = (case instances f of IntVal n \<Rightarrow> nat n | NaN \<Rightarrow> 0)"

text \<open>
  Running a step \<open>n\<close> times, each run on the heap the previous one left, collecting the
  results in order; the first failure ends the batch and nothing is collected.
\<close>

fun repeat_collect :: "('s \<Rightarrow> ('e + 'a) \<times> 's) \<Rightarrow> nat \<Rightarrow> 's \<Rightarrow> ('e + 'a list) \<times> 's" where
  "repeat_collect step 0 s = (Inr [], s)"
| "repeat_collect step (Suc n) s =
     (case step s of
        (Inl e, s') \<Rightarrow> (Inl e, s')
      | (Inr a, s') \<Rightarrow>
          (case repeat_collect step n s' of
             (Inl e, s'') \<Rightarrow> (Inl e, s'')
           | (Inr as, s'') \<Rightarrow> (Inr (a # as), s'')))"

text \<open>Steps 1 and 2 of a build: the blueprint's output with the overrides merged on top.\<close>

definition merged :: "'v factory \<Rightarrow> addr \<Rightarrow> 'v heap \<Rightarrow> (thrown + addr) \<times> 'v heap" where
  "merged f overrides h =
     (case definition_fn f h of
        (Inl e, h1) \<Rightarrow> (Inl e, h1)
      | (Inr blueprint, h1) \<Rightarrow> object_assign blueprint overrides h1)"

text \<open>
  \<open>T\<^sub>n(\<dots>(T\<^sub>2(T\<^sub>1(M)))\<dots>)\<close>: the transforms are given outermost first, that is in the
  reverse of the order of registration.
\<close>

fun nested :: "'v callback list \<Rightarrow> 'v callback" where
  "nested [] m h = (Inr m, h)"
| "nested (T # inner) m h =
     (case nested inner m h of
        (Inl e, h') \<Rightarrow> (Inl e, h')
      | (Inr m', h') \<Rightarrow> T m' h')"

text \<open>Registering the transforms of a list, first to last, by calls of \<^verbatim>\<open>state\<close>.\<close>

definition register :: "'v callback list \<Rightarrow> 'v factory \<Rightarrow> 'v factory" where
  "register Ts f = foldl (\<lambda>g T. state T g) f Ts"

text \<open>
  A blueprint or callback is pure when it leaves every object that exists as it is: the
  heap it returns extends the heap it got. A fresh blueprint is pure and returns an object
  it has just allocated.
\<close>

definition pure_blueprint :: "'v blueprint \<Rightarrow> bool" where
  "pure_blueprint d = (\<forall>h. prefix h (snd (d h)))"

definition pure_callback :: "'v callback \<Rightarrow> bool" where
  "pure_callback cb = (\<forall>a h. prefix h (snd (cb a h)))"

definition fresh_blueprint :: "'v blueprint \<Rightarrow> bool" where
  "fresh_blueprint d =
     (\<forall>h. prefix h (snd (d h)) \<and>
          (\<forall>a. fst (d h) = Inr a \<longrightarrow> length h \<le> a \<and> a < length (snd (d h))))"

text \<open>
  A blueprint that does not throw returns an object; a callback that does not throw
  returns an object whenever it is given one.
\<close>

definition blueprint_returns :: "'v blueprint \<Rightarrow> bool" where
  "blueprint_returns d = (\<forall>h. \<exists>a h'. d h = (Inr a, h') \<and> a < length h')"

definition callback_returns :: "'v callback \<Rightarrow> bool" where
  "callback_returns cb =
     (\<forall>a h. a < length h \<longrightarrow> (\<exists>a' h'. cb a h = (Inr a', h') \<and> a' < length h'))"

subsection \<open>The factory of the test suite\<close>

text \<open>
  \<^verbatim>\<open>TestFactoryClass\<close>: the blueprint returns a new object
  \<^verbatim>\<open>{ example: 'I AM AN EXAMPLE' }\<close>, and \<^verbatim>\<open>exampleState\<close> registers a callback that
  assigns \<^verbatim>\<open>{ state: 'This was an example state!' }\<close> into the model it is given (the
  object literal is allocated first) and returns that model.
\<close>

definition test_definition :: "string blueprint" where
  "test_definition h = (Inr (length h), h @ [[''example'' \<mapsto> ''I AM AN EXAMPLE'']])"

definition example_callback :: "string callback" where
  "example_callback attributes h =
     object_assign attributes (length h) (h @ [[''state'' \<mapsto> ''This was an example state!'']])"

definition exampleState :: "string factory \<Rightarrow> string factory" where
  "exampleState f = state example_callback f"

definition TestFactory :: "string factory" where
  "TestFactory = new_factory test_definition"

text \<open>Further callbacks and a blueprint used as inputs below.\<close>

definition throwing_callback :: "string callback" where
  "throwing_callback attributes h = (Inl (ErrorObj ''boom''), h)"

definition copying_callback :: "string callback" where
  "copying_callback attributes h =
     (case lookup h attributes of
        None \<Rightarrow> (Inl (ErrorObj ''Cannot convert undefined or null to object''), h)
      | Some m \<Rightarrow> (Inr (length h), h @ [m(''state'' \<mapsto> ''copied'')]))"

definition rename_callback :: "string \<Rightarrow> string callback" where
  "rename_callback sfx attributes h =
     (case lookup h attributes of
        None \<Rightarrow> (Inl (ErrorObj ''Cannot read properties of undefined''), h)
      | Some m \<Rightarrow>
          (Inr attributes,
           h[attributes := m(''example'' \<mapsto> (case m ''example'' of None \<Rightarrow> sfx | Some s \<Rightarrow> s @ sfx))]))"


definition failing_factory :: "string factory" where
  "failing_factory = snd (count (IntVal 3) (state throwing_callback TestFactory))"

text \<open>
  A blueprint that works once and then throws a plain string (\<^verbatim>\<open>throw 'out of stock'\<close>):
  it builds the test suite's model while the heap holds fewer than two objects.
\<close>

definition flaky_definition :: "string blueprint" where
  "flaky_definition h =
     (if length h < 2 then test_definition h else (Inl (NonError ''out of stock''), h))"

definition flaky_factory :: "string factory" where
  "flaky_factory = snd (count (IntVal 2) (new_factory flaky_definition))"

text \<open>
  The builders the public methods can reach from a new one, with integer amounts passed to
  \<^verbatim>\<open>count\<close>.
\<close>

inductive reachable :: "'v factory \<Rightarrow> bool" where
  reach_new: "reachable (new_factory d)"
| reach_count: "reachable f \<Longrightarrow> reachable (snd (count (IntVal n) f))"
| reach_state: "reachable f \<Longrightarrow> reachable (state cb f)"
| reach_make: "reachable f \<Longrightarrow> reachable (fst (snd (make f ov h)))"
| reach_makeOne: "reachable f \<Longrightarrow> reachable (fst (snd (makeOne f ov h)))"
| reach_create: "reachable f \<Longrightarrow> reachable (fst (snd (create f ov h)))"
| reach_createOne: "reachable f \<Longrightarrow> reachable (fst (snd (createOne f ov h)))"

section \<open>The loop as a repeated step\<close>

text \<open>
  The equation of \<open>make_loop\<close> is unfolded by hand where it is needed. The loop, started
  at index \<open>i\<close> with the array \<open>acc\<close>, runs its body once for each remaining index.
\<close>

declare make_loop.simps [simp del]

lemma make_loop_repeat:
  "make_loop f ov i acc h =
     (case repeat_collect (make_model f ov)
             (case instances f of IntVal n \<Rightarrow> nat (n - i) | NaN \<Rightarrow> 0) h of
        (Inl e, h') \<Rightarrow> (Inl e, h')
      | (Inr as, h') \<Rightarrow> (Inr (acc @ as), h'))"
proof (induction f ov i acc h rule: make_loop.induct)
  case (1 f ov i acc h)
  show ?case
  proof (cases "instances f")
    case NaN
    then show ?thesis by (subst make_loop.simps) simp
  next
    case (IntVal n)
    show ?thesis
    proof (cases "i < n")
      case False
      with IntVal show ?thesis by (subst make_loop.simps) simp
    next
      case True
      define k where "k = nat (n - (i + 1))"
      from True have k: "nat (n - i) = Suc k" and k': "nat (n - (i + 1)) = k"
        unfolding k_def by arith+
      show ?thesis
      proof (cases "make_model f ov h")
        case (Pair r h1)
        show ?thesis
        proof (cases r)
          case (Inl e)
          with Pair IntVal True k show ?thesis
            by (subst make_loop.simps) simp
        next
          case (Inr m)
          with Pair IntVal True have
            "make_loop f ov (i + 1) (acc @ [m]) h1 =
               (case repeat_collect (make_model f ov) k h1 of
                  (Inl e, h') \<Rightarrow> (Inl e, h')
                | (Inr as, h') \<Rightarrow> (Inr ((acc @ [m]) @ as), h'))"
            using "1.IH"[of r h1 m] k' by simp
          with Pair Inr IntVal True k show ?thesis
            by (subst make_loop.simps) (simp split: prod.splits sum.splits)
        qed
      qed
    qed
  qed
qed

lemma make_repeat:
  "make f ov h =
     (case repeat_collect (make_model f ov) (iterations f) h of
        (Inr out, h') \<Rightarrow> (Inr out, f\<lparr>stateCallbacks := [], instances := IntVal 1\<rparr>, h')
      | (Inl e, h') \<Rightarrow> (Inl (ErrorObj (''Failed to make model: '' @ message_of e)), f, h'))"
  by (simp add: make_def make_loop_repeat iterations_def split: prod.splits sum.splits number.splits)

lemma repeat_collect_length:
  "repeat_collect step n s = (Inr as, s') \<Longrightarrow> length as = n"
  by (induction n arbitrary: s as) (auto split: prod.splits sum.splits)

lemma reduce_callbacks_snoc:
  "reduce_callbacks (cbs @ [T]) m h =
     (case reduce_callbacks cbs m h of
        (Inl e, h') \<Rightarrow> (Inl e, h')
      | (Inr m', h') \<Rightarrow> T m' h')"
  by (induction cbs arbitrary: m h) (auto split: prod.splits sum.splits)

lemma reduce_nested: "reduce_callbacks cbs m h = nested (rev cbs) m h"
  by (induction cbs arbitrary: m h rule: rev_induct) (simp_all add: reduce_callbacks_snoc)

lemma register_fields:
  "stateCallbacks (register Ts f) = stateCallbacks f @ Ts"
  "instances (register Ts f) = instances f"
  "definition_fn (register Ts f) = definition_fn f"
  by (induction Ts arbitrary: f) (simp_all add: register_def state_def)

lemma make_model_nested:
  "make_model f ov h =
     (case merged f ov h of
        (Inl e, h') \<Rightarrow> (Inl e, h')
      | (Inr M, h') \<Rightarrow> nested (rev (stateCallbacks f)) M h')"
  by (simp add: make_model_def merged_def reduce_nested split: prod.splits sum.splits)

lemmas test_defs = TestFactory_def new_factory_def test_definition_def example_callback_def
  exampleState_def state_def count_def object_assign_def lookup_def make_model_def
  iterations_def throwing_callback_def failing_factory_def flaky_definition_def
  flaky_factory_def

section \<open>The test suite, run on the model\<close>

text \<open>
  The expectations of the repository's tests, with the overrides object (empty unless the
  test passes one) at address 0 of the heap.
\<close>

lemma test_a_factory_can_make_a_model:
  "makeOne TestFactory 0 [Map.empty] =
     (Inr (Some 1), TestFactory, [Map.empty, [''example'' \<mapsto> ''I AM AN EXAMPLE'']])"
  by (simp add: makeOne_def make_repeat test_defs)

lemma test_a_factory_can_be_given_overrides:
  "makeOne TestFactory 0 [[''example'' \<mapsto> ''FooBar'']] =
     (Inr (Some 1), TestFactory, [[''example'' \<mapsto> ''FooBar''], [''example'' \<mapsto> ''FooBar'']])"
  by (simp add: makeOne_def make_repeat test_defs)

lemma test_a_factory_can_make_several_models:
  "fst (make (snd (count (IntVal 3) TestFactory)) 0 [Map.empty]) = Inr [1, 2, 3]"
  by (simp add: make_repeat test_defs numeral_3_eq_3)

lemma test_throws_error_for_invalid_count:
  "fst (count (IntVal 0) TestFactory) = Inl (ErrorObj ''Count must be greater than 0'')"
  by (simp add: count_def)

lemma test_a_factory_can_create_a_State:
  "makeOne (exampleState TestFactory) 0 [Map.empty] =
     (Inr (Some 1), TestFactory,
      [Map.empty,
       [''example'' \<mapsto> ''I AM AN EXAMPLE'', ''state'' \<mapsto> ''This was an example state!''],
       [''state'' \<mapsto> ''This was an example state!'']])"
  by (simp add: makeOne_def make_repeat test_defs)

lemma test_states_are_cleared_after_make:
  "fst (snd (makeOne (exampleState TestFactory) 0 [Map.empty])) = TestFactory \<and>
   makeOne TestFactory 0
     (snd (snd (makeOne (exampleState TestFactory) 0 [Map.empty]))) =
     (Inr (Some 3), TestFactory,
      [Map.empty,
       [''example'' \<mapsto> ''I AM AN EXAMPLE'', ''state'' \<mapsto> ''This was an example state!''],
       [''state'' \<mapsto> ''This was an example state!''],
       [''example'' \<mapsto> ''I AM AN EXAMPLE'']])"
  by (simp add: makeOne_def make_repeat test_defs)

section \<open>The reset after a build\<close>

text \<open>
  On its return path \<^verbatim>\<open>make\<close> resets the builder (\<^verbatim>\<open>Reset state callbacks after making
  instances\<close>), and so does \<^verbatim>\<open>makeOne\<close>, which the test \<^verbatim>\<open>states are cleared after make\<close>
  relies on.
\<close>

lemma make_resets_on_return:
  "make f ov h = (Inr out, f', h') \<Longrightarrow> f' = f\<lparr>stateCallbacks := [], instances := IntVal 1\<rparr>"
  "makeOne f ov h = (Inr model, f', h') \<Longrightarrow> f' = f\<lparr>stateCallbacks := [], instances := IntVal 1\<rparr>"
  by (auto simp: make_def makeOne_def split: prod.splits sum.splits)

text \<open>
  C1. The claim is that the builder has no pending state callbacks and a pending count of
  1 when \<^verbatim>\<open>make\<close> or \<^verbatim>\<open>makeOne\<close> finishes, also when it throws. The two assignments of the
  reset are the last statements inside the \<^verbatim>\<open>try\<close> block, so a throw of the blueprint or
  of a callback skips them: after \<^verbatim>\<open>count(3)\<close> and the registration of a callback that
  throws, \<^verbatim>\<open>make({})\<close> throws and the builder still holds the callback and the count 3,
  and the next \<^verbatim>\<open>makeOne({})\<close> on the same builder throws again.
\<close>

theorem make_throw_skips_reset:
  "fst (make failing_factory 0 [Map.empty]) = Inl (ErrorObj ''Failed to make model: boom'') \<and>
   stateCallbacks (fst (snd (make failing_factory 0 [Map.empty]))) = [throwing_callback] \<and>
   instances (fst (snd (make failing_factory 0 [Map.empty]))) = IntVal 3 \<and>
   fst (makeOne (fst (snd (make failing_factory 0 [Map.empty]))) 0
          (snd (snd (make failing_factory 0 [Map.empty])))) =
     Inl (ErrorObj ''Failed to make model: boom'')"
  by (simp add: makeOne_def make_repeat test_defs numeral_3_eq_3)

section \<open>The order of the state callbacks\<close>

text \<open>
  C3. After the registrations \<^verbatim>\<open>state(T1)\<close>, ..., \<^verbatim>\<open>state(Tn)\<close> on a builder \<open>f\<close>, a call of
  \<^verbatim>\<open>make\<close> with overrides \<open>ov\<close> produces each model as \<open>Tn(\<dots>(T1(M))\<dots>)\<close>, after the
  callbacks \<open>f\<close> already held, where \<open>M\<close> is the blueprint's output with the overrides
  merged on top: the merge comes first, the callbacks follow in the order of registration,
  each on the result of the one before.
\<close>

theorem state_order:
  "make (register Ts f) ov h =
     (case repeat_collect
             (\<lambda>s. case merged f ov s of
                     (Inl e, s') \<Rightarrow> (Inl e, s')
                   | (Inr M, s') \<Rightarrow> nested (rev (stateCallbacks f @ Ts)) M s')
             (iterations f) h of
        (Inr out, h') \<Rightarrow>
          (Inr out, (register Ts f)\<lparr>stateCallbacks := [], instances := IntVal 1\<rparr>, h')
      | (Inl e, h') \<Rightarrow>
          (Inl (ErrorObj (''Failed to make model: '' @ message_of e)), register Ts f, h'))"
proof -
  have "make_model (register Ts f) ov =
          (\<lambda>s. case merged f ov s of
                  (Inl e, s') \<Rightarrow> (Inl e, s')
                | (Inr M, s') \<Rightarrow> nested (rev (stateCallbacks f @ Ts)) M s')"
    by (rule ext)
       (simp add: make_model_nested merged_def register_fields split: prod.splits sum.splits)
  moreover have "iterations (register Ts f) = iterations f"
    by (simp add: iterations_def register_fields)
  ultimately show ?thesis
    by (simp add: make_repeat)
qed

text \<open>
  Two callbacks that do not commute, registered in the two orders: the one registered
  first is applied first.
\<close>

lemma state_order_example:
  "snd (snd (makeOne (register [rename_callback ''A'', rename_callback ''B''] TestFactory) 0
               [Map.empty])) =
     [Map.empty, [''example'' \<mapsto> ''I AM AN EXAMPLEAB'']] \<and>
   snd (snd (makeOne (register [rename_callback ''B'', rename_callback ''A''] TestFactory) 0
               [Map.empty])) =
     [Map.empty, [''example'' \<mapsto> ''I AM AN EXAMPLEBA'']]"
  by (simp add: makeOne_def make_repeat test_defs register_def rename_callback_def)

section \<open>One model out of a batch\<close>

text \<open>
  C5. \<^verbatim>\<open>makeOne(O)\<close> returns element 0 of the array \<^verbatim>\<open>make(O)\<close> returns from the same
  state (\<^verbatim>\<open>undefined\<close> for an empty array), throws what \<^verbatim>\<open>make\<close> throws, and leaves the
  builder and the heap as \<^verbatim>\<open>make\<close> does: the loop body runs once for each of the pending
  count's models, and the models after the first are dropped.
\<close>

theorem makeOne_first_of_make:
  "fst (makeOne f ov h) =
     map_sum id (\<lambda>out. if out = [] then None else Some (out ! 0)) (fst (make f ov h)) \<and>
   snd (makeOne f ov h) = snd (make f ov h) \<and>
   snd (snd (makeOne f ov h)) = snd (repeat_collect (make_model f ov) (iterations f) h)"
  by (simp add: makeOne_def make_repeat split: prod.splits sum.splits list.splits)

text \<open>After \<^verbatim>\<open>count(3)\<close>, \<^verbatim>\<open>makeOne\<close> builds three models and returns the first.\<close>

lemma makeOne_builds_the_batch:
  "makeOne (snd (count (IntVal 3) TestFactory)) 0 [Map.empty] =
     (Inr (Some 1), TestFactory,
      [Map.empty, [''example'' \<mapsto> ''I AM AN EXAMPLE''], [''example'' \<mapsto> ''I AM AN EXAMPLE''],
       [''example'' \<mapsto> ''I AM AN EXAMPLE'']])"
  by (simp add: makeOne_def make_repeat test_defs numeral_3_eq_3)

section \<open>The validation of the count\<close>

text \<open>
  C6 (amended). For every integer \<open>amount < 1\<close>, \<^verbatim>\<open>count(amount)\<close> throws an \<^verbatim>\<open>Error\<close> with
  the message \<^verbatim>\<open>Count must be greater than 0\<close> and leaves the builder as it was; for
  \<open>amount \<ge> 1\<close> it stores the amount as the pending count, changes nothing else and
  returns the builder.
\<close>

theorem count_contract:
  "(amount < 1 \<longrightarrow>
      count (IntVal amount) f = (Inl (ErrorObj ''Count must be greater than 0''), f)) \<and>
   (1 \<le> amount \<longrightarrow>
      count (IntVal amount) f = (Inr (), f\<lparr>instances := IntVal amount\<rparr>))"
  by (simp add: count_def)

theorem count_contract_witness:
  "(0::int) < 1 \<and>
   count (IntVal 0) TestFactory = (Inl (ErrorObj ''Count must be greater than 0''), TestFactory) \<and>
   (1::int) \<le> 3 \<and>
   count (IntVal 3) TestFactory = (Inr (), TestFactory\<lparr>instances := IntVal 3\<rparr>)"
  using count_contract [of 0 TestFactory] count_contract [of 3 TestFactory] by simp

text \<open>C6 as stated fails on the message: the text thrown starts with a capital letter.\<close>

theorem count_message_counterexample:
  "fst (count (IntVal 0) TestFactory) \<noteq> Inl (ErrorObj ''count must be greater than 0'')"
  by (simp add: count_def)

section \<open>The storage stubs\<close>

text \<open>
  C8 (amended). \<^verbatim>\<open>create\<close> and \<^verbatim>\<open>createOne\<close> throw, for every argument and every builder
  state, an \<^verbatim>\<open>Error\<close> with the message \<^verbatim>\<open>Must implement the DB layer to use Create.\<close>; the
  builder (count, callbacks) and the heap are left as they were, whatever the blueprint
  would do: it is not called.
\<close>

theorem create_always_throws:
  "create f ov h = (Inl (ErrorObj ''Must implement the DB layer to use Create.''), f, h) \<and>
   createOne f ov h = (Inl (ErrorObj ''Must implement the DB layer to use Create.''), f, h)"
  by (simp add: create_def createOne_def)

text \<open>C8 as stated fails on the message.\<close>

theorem create_message_counterexample:
  "fst (create TestFactory 0 [Map.empty]) \<noteq> Inl (ErrorObj ''storage layer not implemented'')"
  by (simp add: create_def)

section \<open>The pending count of a reachable builder\<close>

text \<open>
  With integer amounts the pending count of a reachable builder is at least 1, so a
  \<^verbatim>\<open>make\<close> that returns has built at least one model and \<^verbatim>\<open>makeOne\<close> returns a model.
\<close>

lemma reachable_instances: "reachable f \<Longrightarrow> \<exists>n. instances f = IntVal n \<and> 1 \<le> n"
proof (induction rule: reachable.induct)
  case (reach_make f ov h)
  then show ?case by (simp add: make_def split: prod.splits sum.splits)
next
  case (reach_makeOne f ov h)
  then show ?case by (simp add: makeOne_def make_def split: prod.splits sum.splits)
qed (auto simp: new_factory_def count_def state_def create_def createOne_def)

lemma reachable_make_nonempty:
  assumes "reachable f"
  shows "make f ov h = (Inr out, f', h') \<Longrightarrow> out \<noteq> []"
    and "makeOne f ov h = (Inr r, f', h') \<Longrightarrow> r \<noteq> None"
proof -
  from assms obtain n where n: "instances f = IntVal n" "1 \<le> n"
    using reachable_instances by blast
  then obtain k where k: "iterations f = Suc k"
    by (cases "nat n") (auto simp: iterations_def)
  have nonempty: "xs \<noteq> []" if "make f ov h = (Inr xs, g, s)" for xs g s
    using that repeat_collect_length [of "make_model f ov" "iterations f" h] k
    by (auto simp: make_repeat split: prod.splits sum.splits)
  then show "make f ov h = (Inr out, f', h') \<Longrightarrow> out \<noteq> []" .
  show "makeOne f ov h = (Inr r, f', h') \<Longrightarrow> r \<noteq> None"
    using nonempty by (auto simp: makeOne_def split: prod.splits sum.splits list.splits)
qed

text \<open>
  C9. The claim is that the pending count is at least 1 in every state the public methods
  reach. The guard of \<^verbatim>\<open>count\<close> is \<^verbatim>\<open>amount < 1\<close>, which is false for \<^verbatim>\<open>NaN\<close>: on a new
  builder \<^verbatim>\<open>count(NaN)\<close> returns normally and stores \<^verbatim>\<open>NaN\<close>, the loop condition
  \<^verbatim>\<open>0 < NaN\<close> is false, \<^verbatim>\<open>make\<close> returns the empty array and \<^verbatim>\<open>makeOne\<close> returns
  \<^verbatim>\<open>undefined\<close>.
\<close>

theorem count_accepts_NaN:
  "count NaN (new_factory d) = (Inr (), (new_factory d)\<lparr>instances := NaN\<rparr>) \<and>
   \<not> num_less (IntVal 0) (instances (snd (count NaN (new_factory d)))) \<and>
   make (snd (count NaN (new_factory d))) ov h = (Inr [], new_factory d, h) \<and>
   makeOne (snd (count NaN (new_factory d))) ov h = (Inr None, new_factory d, h)"
  by (simp add: count_def makeOne_def make_repeat iterations_def new_factory_def)

section \<open>Failures inside a build\<close>

lemma reduce_callbacks_append:
  "reduce_callbacks (xs @ ys) m h =
     (case reduce_callbacks xs m h of
        (Inl e, h') \<Rightarrow> (Inl e, h')
      | (Inr m', h') \<Rightarrow> reduce_callbacks ys m' h')"
  by (induction xs arbitrary: m h) (auto split: prod.splits sum.splits)

lemma repeat_collect_add:
  "repeat_collect step (k + n) s =
     (case repeat_collect step k s of
        (Inl e, s') \<Rightarrow> (Inl e, s')
      | (Inr as, s') \<Rightarrow>
          (case repeat_collect step n s' of
             (Inl e, s'') \<Rightarrow> (Inl e, s'')
           | (Inr bs, s'') \<Rightarrow> (Inr (as @ bs), s'')))"
  by (induction k arbitrary: s) (auto split: prod.splits sum.splits)

lemma iterations_more:
  "num_less (IntVal (int k)) (instances f) \<Longrightarrow> \<exists>n. iterations f = k + Suc n"
proof (cases "instances f")
  case (IntVal x)
  assume "num_less (IntVal (int k)) (instances f)"
  with IntVal have "int k < x"
    by simp
  then have "\<exists>n. nat x = k + Suc n"
    by (intro exI [of _ "nat x - Suc k"]) simp
  with IntVal show ?thesis
    by (simp add: iterations_def)
next
  case NaN
  assume "num_less (IntVal (int k)) (instances f)"
  with NaN show ?thesis by simp
qed

text \<open>
  C7. When, in some iteration of \<^verbatim>\<open>make\<close> (after \<open>k\<close> iterations that went through, with
  \<open>k\<close> below the pending count), the blueprint throws \<open>e\<close>, or a registered state callback
  throws \<open>e\<close> after the merge and the callbacks before it went through, the call throws an
  \<^verbatim>\<open>Error\<close> whose message is \<^verbatim>\<open>Failed to make model: \<close> followed by the message of \<open>e\<close>
  when \<open>e\<close> is an \<^verbatim>\<open>Error\<close>, and by the rendering of \<open>e\<close> as a string when it is any other
  value. No array is returned, whatever the earlier iterations built.
\<close>

theorem make_wraps_failure:
  assumes ran: "repeat_collect (make_model f ov) k h = (Inr models, hk)"
    and left: "num_less (IntVal (int k)) (instances f)"
    and throw: "definition_fn f hk = (Inl e, h') \<or>
       (\<exists>M h2 pre T post a h3.
          merged f ov hk = (Inr M, h2) \<and> stateCallbacks f = pre @ T # post \<and>
          reduce_callbacks pre M h2 = (Inr a, h3) \<and> T a h3 = (Inl e, h'))"
  shows "make f ov h =
     (Inl (ErrorObj (''Failed to make model: '' @
             (case e of ErrorObj message \<Rightarrow> message | NonError rendered \<Rightarrow> rendered))),
      f, h')"
proof -
  from throw have body: "make_model f ov hk = (Inl e, h')"
  proof
    assume "definition_fn f hk = (Inl e, h')"
    then show ?thesis by (simp add: make_model_def)
  next
    assume "\<exists>M h2 pre T post a h3.
          merged f ov hk = (Inr M, h2) \<and> stateCallbacks f = pre @ T # post \<and>
          reduce_callbacks pre M h2 = (Inr a, h3) \<and> T a h3 = (Inl e, h')"
    then obtain M h2 pre T post a h3 where
      m: "merged f ov hk = (Inr M, h2)" and cbs: "stateCallbacks f = pre @ T # post"
      and pre: "reduce_callbacks pre M h2 = (Inr a, h3)" and T: "T a h3 = (Inl e, h')"
      by blast
    from pre T have "reduce_callbacks (stateCallbacks f) M h2 = (Inl e, h')"
      by (simp add: cbs reduce_callbacks_append)
    with m show ?thesis
      by (auto simp: make_model_def merged_def split: prod.splits sum.splits)
  qed
  from left obtain n where n: "iterations f = k + Suc n"
    using iterations_more by blast
  from ran body have "repeat_collect (make_model f ov) (k + Suc n) h = (Inl e, h')"
    by (subst repeat_collect_add) simp
  then have "make f ov h =
      (Inl (ErrorObj (''Failed to make model: '' @ message_of e)), f, h')"
    by (simp add: make_repeat n)
  then show ?thesis
    by (cases e) simp_all
qed

text \<open>
  Two runs: a callback that throws \<^verbatim>\<open>new Error('boom')\<close> in the first iteration, and a
  blueprint that throws the string \<^verbatim>\<open>'out of stock'\<close> in the second iteration, after one
  model was built.
\<close>

theorem make_wraps_failure_witness:
  "repeat_collect (make_model failing_factory 0) 0 [Map.empty] = (Inr [], [Map.empty]) \<and>
   num_less (IntVal (int 0)) (instances failing_factory) \<and>
   merged failing_factory 0 [Map.empty] =
     (Inr 1, [Map.empty, [''example'' \<mapsto> ''I AM AN EXAMPLE'']]) \<and>
   stateCallbacks failing_factory = [] @ throwing_callback # [] \<and>
   throwing_callback 1 [Map.empty, [''example'' \<mapsto> ''I AM AN EXAMPLE'']] =
     (Inl (ErrorObj ''boom''), [Map.empty, [''example'' \<mapsto> ''I AM AN EXAMPLE'']]) \<and>
   make failing_factory 0 [Map.empty] =
     (Inl (ErrorObj ''Failed to make model: boom''), failing_factory,
      [Map.empty, [''example'' \<mapsto> ''I AM AN EXAMPLE'']]) \<and>
   repeat_collect (make_model flaky_factory 0) (Suc 0) [Map.empty] =
     (Inr [1], [Map.empty, [''example'' \<mapsto> ''I AM AN EXAMPLE'']]) \<and>
   num_less (IntVal (int (Suc 0))) (instances flaky_factory) \<and>
   definition_fn flaky_factory [Map.empty, [''example'' \<mapsto> ''I AM AN EXAMPLE'']] =
     (Inl (NonError ''out of stock''), [Map.empty, [''example'' \<mapsto> ''I AM AN EXAMPLE'']]) \<and>
   make flaky_factory 0 [Map.empty] =
     (Inl (ErrorObj ''Failed to make model: out of stock''), flaky_factory,
      [Map.empty, [''example'' \<mapsto> ''I AM AN EXAMPLE'']])"
proof -
  have 1: "repeat_collect (make_model failing_factory 0) 0 [Map.empty] = (Inr [], [Map.empty])"
    by simp
  have 2: "num_less (IntVal (int 0)) (instances failing_factory)"
    by (simp add: test_defs)
  have 3: "merged failing_factory 0 [Map.empty] =
     (Inr 1, [Map.empty, [''example'' \<mapsto> ''I AM AN EXAMPLE'']])"
    by (simp add: merged_def test_defs)
  have 4: "stateCallbacks failing_factory = [] @ throwing_callback # []"
    by (simp add: test_defs)
  have 5: "reduce_callbacks [] 1 [Map.empty, [''example'' \<mapsto> ''I AM AN EXAMPLE'']] =
     (Inr 1, [Map.empty, [''example'' \<mapsto> ''I AM AN EXAMPLE'']])"
    by simp
  have 6: "throwing_callback 1 [Map.empty, [''example'' \<mapsto> ''I AM AN EXAMPLE'']] =
     (Inl (ErrorObj ''boom''), [Map.empty, [''example'' \<mapsto> ''I AM AN EXAMPLE'']])"
    by (simp add: throwing_callback_def)
  from 3 4 5 6 have 7:
    "definition_fn failing_factory [Map.empty] =
        (Inl (ErrorObj ''boom''), [Map.empty, [''example'' \<mapsto> ''I AM AN EXAMPLE'']]) \<or>
     (\<exists>M h2 pre T post a h3.
        merged failing_factory 0 [Map.empty] = (Inr M, h2) \<and>
        stateCallbacks failing_factory = pre @ T # post \<and>
        reduce_callbacks pre M h2 = (Inr a, h3) \<and>
        T a h3 = (Inl (ErrorObj ''boom''), [Map.empty, [''example'' \<mapsto> ''I AM AN EXAMPLE'']]))"
    by blast
  have 8: "repeat_collect (make_model flaky_factory 0) (Suc 0) [Map.empty] =
     (Inr [1], [Map.empty, [''example'' \<mapsto> ''I AM AN EXAMPLE'']])"
    by (simp add: test_defs)
  have 9: "num_less (IntVal (int (Suc 0))) (instances flaky_factory)"
    by (simp add: test_defs)
  have 10: "definition_fn flaky_factory [Map.empty, [''example'' \<mapsto> ''I AM AN EXAMPLE'']] =
     (Inl (NonError ''out of stock''), [Map.empty, [''example'' \<mapsto> ''I AM AN EXAMPLE'']])"
    by (simp add: test_defs)
  then have 11:
    "definition_fn flaky_factory [Map.empty, [''example'' \<mapsto> ''I AM AN EXAMPLE'']] =
        (Inl (NonError ''out of stock''), [Map.empty, [''example'' \<mapsto> ''I AM AN EXAMPLE'']]) \<or>
     (\<exists>M h2 pre T post a h3.
        merged flaky_factory 0 [Map.empty, [''example'' \<mapsto> ''I AM AN EXAMPLE'']] = (Inr M, h2) \<and>
        stateCallbacks flaky_factory = pre @ T # post \<and>
        reduce_callbacks pre M h2 = (Inr a, h3) \<and>
        T a h3 =
          (Inl (NonError ''out of stock''), [Map.empty, [''example'' \<mapsto> ''I AM AN EXAMPLE'']]))"
    by (rule disjI1)
  from make_wraps_failure [OF 1 2 7] make_wraps_failure [OF 8 9 11] 1 2 3 4 6 8 9 10
  show ?thesis
    by simp
qed

section \<open>The length of a batch\<close>

lemma object_assign_returns:
  "a < length h \<Longrightarrow> \<exists>h'. object_assign a ov h = (Inr a, h') \<and> length h' = length h"
  by (auto simp: object_assign_def lookup_def)

lemma reduce_callbacks_returns:
  "\<forall>cb \<in> set cbs. callback_returns cb \<Longrightarrow> a < length h \<Longrightarrow>
     \<exists>a' h'. reduce_callbacks cbs a h = (Inr a', h') \<and> a' < length h'"
proof (induction cbs arbitrary: a h)
  case Nil
  then show ?case by simp
next
  case (Cons cb cbs)
  from Cons.prems obtain a1 h1 where 1: "cb a h = (Inr a1, h1)" "a1 < length h1"
    unfolding callback_returns_def by (metis list.set_intros(1))
  from Cons.prems have "\<forall>cb \<in> set cbs. callback_returns cb"
    by simp
  from Cons.IH [OF this 1(2)] 1(1) show ?case
    by simp
qed

lemma make_model_returns:
  assumes "blueprint_returns (definition_fn f)"
    and "\<forall>cb \<in> set (stateCallbacks f). callback_returns cb"
  shows "\<exists>a h'. make_model f ov h = (Inr a, h')"
proof -
  from assms(1) obtain b h1 where 1: "definition_fn f h = (Inr b, h1)" "b < length h1"
    unfolding blueprint_returns_def by blast
  from object_assign_returns [OF 1(2)] obtain h2 where
    2: "object_assign b ov h1 = (Inr b, h2)" "length h2 = length h1"
    by blast
  with 1 have "b < length h2"
    by simp
  from reduce_callbacks_returns [OF assms(2) this] obtain a h' where
    "reduce_callbacks (stateCallbacks f) b h2 = (Inr a, h')"
    by blast
  with 1 2 show ?thesis
    by (simp add: make_model_def)
qed

lemma repeat_collect_returns:
  "\<forall>s. \<exists>a s'. step s = (Inr a, s') \<Longrightarrow>
     \<exists>as s'. repeat_collect step n s = (Inr as, s') \<and> length as = n"
proof (induction n arbitrary: s)
  case 0
  then show ?case by simp
next
  case (Suc n)
  from Suc.prems obtain a s1 where 1: "step s = (Inr a, s1)"
    by blast
  from Suc.IH [OF Suc.prems, of s1] obtain as s' where
    "repeat_collect step n s1 = (Inr as, s')" "length as = n"
    by blast
  with 1 show ?case
    by simp
qed

lemma test_definition_returns: "blueprint_returns test_definition"
  by (simp add: blueprint_returns_def test_definition_def)

lemma example_callback_returns: "callback_returns example_callback"
  by (simp add: callback_returns_def example_callback_def object_assign_def lookup_def)

text \<open>
  C4. For every integer \<open>N \<ge> 1\<close> and every builder whose blueprint and registered state
  callbacks do not throw (and return objects), \<^verbatim>\<open>count(N)\<close> returns normally and the
  following \<^verbatim>\<open>make\<close> returns an array of exactly \<open>N\<close> models and resets the builder. The
  array is, in order, what \<open>N\<close> runs of the steps of a build give, each run on the heap the
  previous one left: the blueprint's output with the overrides merged on top, then the
  pending callbacks in the order of registration.
\<close>

theorem count_make_length:
  assumes "1 \<le> N"
    and "blueprint_returns (definition_fn f)"
    and "\<forall>cb \<in> set (stateCallbacks f). callback_returns cb"
  shows "fst (count (IntVal N) f) = Inr () \<and>
     (\<exists>out h'.
        repeat_collect
          (\<lambda>s. case merged f ov s of
                  (Inl e, s') \<Rightarrow> (Inl e, s')
                | (Inr M, s') \<Rightarrow> nested (rev (stateCallbacks f)) M s')
          (nat N) h = (Inr out, h') \<and>
        make (snd (count (IntVal N) f)) ov h =
          (Inr out, f\<lparr>stateCallbacks := [], instances := IntVal 1\<rparr>, h') \<and>
        int (length out) = N)"
proof -
  let ?g = "f\<lparr>instances := IntVal N\<rparr>"
  let ?step = "\<lambda>s. case merged f ov s of
                  (Inl e, s') \<Rightarrow> (Inl e, s')
                | (Inr M, s') \<Rightarrow> nested (rev (stateCallbacks f)) M s'"
  from assms(1) have c: "count (IntVal N) f = (Inr (), ?g)"
    by (simp add: count_def)
  have step: "make_model ?g ov = ?step"
    by (rule ext)
       (simp add: make_model_def merged_def reduce_nested split: prod.splits sum.splits)
  have "\<forall>s. \<exists>a s'. make_model ?g ov s = (Inr a, s')"
    using make_model_returns [of ?g ov] assms(2,3) by simp
  from repeat_collect_returns [OF this, of "nat N" h] obtain out h' where
    r: "repeat_collect (make_model ?g ov) (nat N) h = (Inr out, h')" "length out = nat N"
    by blast
  with assms(1) have "make ?g ov h = (Inr out, f\<lparr>stateCallbacks := [], instances := IntVal 1\<rparr>, h')
      \<and> int (length out) = N"
    by (simp add: make_repeat iterations_def)
  with c r(1) show ?thesis
    unfolding step by auto
qed

text \<open>
  The test suite's factory with \<^verbatim>\<open>exampleState\<close> and \<^verbatim>\<open>count(3)\<close>: the three models are
  the objects 1, 3 and 5 of the heap (each run also allocates the callback's literal), and
  each has both properties.
\<close>

theorem count_make_length_witness:
  "(1::int) \<le> 3 \<and>
   blueprint_returns (definition_fn (exampleState TestFactory)) \<and>
   stateCallbacks (exampleState TestFactory) = [example_callback] \<and>
   callback_returns example_callback \<and>
   fst (count (IntVal 3) (exampleState TestFactory)) = Inr () \<and>
   (\<exists>out h'.
      repeat_collect
        (\<lambda>s. case merged (exampleState TestFactory) 0 s of
                (Inl e, s') \<Rightarrow> (Inl e, s')
              | (Inr M, s') \<Rightarrow> nested (rev (stateCallbacks (exampleState TestFactory))) M s')
        (nat 3) [Map.empty] = (Inr out, h') \<and>
      make (snd (count (IntVal 3) (exampleState TestFactory))) 0 [Map.empty] =
        (Inr out, (exampleState TestFactory)\<lparr>stateCallbacks := [], instances := IntVal 1\<rparr>, h') \<and>
      int (length out) = 3) \<and>
   fst (make (snd (count (IntVal 3) (exampleState TestFactory))) 0 [Map.empty]) = Inr [1, 3, 5] \<and>
   map (lookup (snd (snd (make (snd (count (IntVal 3) (exampleState TestFactory))) 0 [Map.empty])))) [1, 3, 5] =
     replicate 3
       (Some [''example'' \<mapsto> ''I AM AN EXAMPLE'', ''state'' \<mapsto> ''This was an example state!''])"
proof -
  have 1: "(1::int) \<le> 3"
    by simp
  have 2: "blueprint_returns (definition_fn (exampleState TestFactory))"
    by (simp add: exampleState_def state_def TestFactory_def new_factory_def
        test_definition_returns)
  have 3: "\<forall>cb \<in> set (stateCallbacks (exampleState TestFactory)). callback_returns cb"
    by (simp add: exampleState_def state_def TestFactory_def new_factory_def
        example_callback_returns)
  have 4: "stateCallbacks (exampleState TestFactory) = [example_callback]"
    by (simp add: exampleState_def state_def TestFactory_def new_factory_def)
  have 5: "fst (make (snd (count (IntVal 3) (exampleState TestFactory))) 0 [Map.empty]) =
      Inr [1, 3, 5]"
    by (simp add: make_repeat test_defs numeral_3_eq_3)
  have 6: "map (lookup (snd (snd (make (snd (count (IntVal 3) (exampleState TestFactory))) 0
              [Map.empty])))) [1, 3, 5] =
     replicate 3
       (Some [''example'' \<mapsto> ''I AM AN EXAMPLE'', ''state'' \<mapsto> ''This was an example state!''])"
    by (simp add: make_repeat test_defs numeral_3_eq_3)
  from count_make_length [OF 1 2 3, of 0 "[Map.empty]"] 1 2 4 5 6 example_callback_returns
  show ?thesis
    by blast
qed

section \<open>The merge of the overrides\<close>

lemma prefix_lookup: "prefix h h1 \<Longrightarrow> lookup h b = Some x \<Longrightarrow> lookup h1 b = Some x"
  by (auto simp: prefix_def lookup_def nth_append split: if_splits)

lemma prefix_nth: "prefix h h1 \<Longrightarrow> b < length h \<Longrightarrow> h1 ! b = h ! b"
  by (auto simp: prefix_def nth_append)

lemma fresh_step:
  assumes "stateCallbacks f = []"
    and "fresh_blueprint (definition_fn f)"
    and "lookup h ov = Some Ov"
    and "make_model f ov h = (Inr a, h2)"
  shows "\<exists>B h1. definition_fn f h = (Inr a, h1) \<and> lookup h1 a = Some B \<and>
           h2 = h1[a := B ++ Ov] \<and> prefix h h1 \<and> length h \<le> a \<and> a < length h1"
proof -
  obtain r h1 where d: "definition_fn f h = (r, h1)"
    by (cases "definition_fn f h")
  with assms(4) obtain b where r: "r = Inr b"
    by (cases r) (auto simp: make_model_def)
  from assms(2) have "prefix h (snd (definition_fn f h)) \<and>
      (\<forall>a. fst (definition_fn f h) = Inr a \<longrightarrow>
         length h \<le> a \<and> a < length (snd (definition_fn f h)))"
    unfolding fresh_blueprint_def by blast
  with d r have fresh: "prefix h h1" "length h \<le> b" "b < length h1"
    by simp_all
  from fresh(1) assms(3) have ov: "lookup h1 ov = Some Ov"
    by (rule prefix_lookup)
  from fresh(3) have b: "lookup h1 b = Some (h1 ! b)"
    by (simp add: lookup_def)
  from assms(1,4) d r ov b have "a = b" "h2 = h1[b := h1 ! b ++ Ov]"
    by (auto simp: make_model_def object_assign_def)
  with d r fresh b show ?thesis
    by auto
qed

lemma fresh_batch:
  assumes "stateCallbacks f = []"
    and "fresh_blueprint (definition_fn f)"
  shows "lookup h ov = Some Ov \<Longrightarrow> repeat_collect (make_model f ov) n h = (Inr as, h') \<Longrightarrow>
     length h \<le> length h' \<and> (\<forall>b < length h. h' ! b = h ! b) \<and>
     (\<forall>a \<in> set as. length h \<le> a \<and>
        (\<exists>B h0 h1. definition_fn f h0 = (Inr a, h1) \<and> lookup h1 a = Some B \<and>
                   lookup h' a = Some (B ++ Ov)))"
proof (induction n arbitrary: h as)
  case 0
  then show ?case by simp
next
  case (Suc n)
  from Suc.prems(2) obtain a h2 bs where
    step: "make_model f ov h = (Inr a, h2)"
    and rest: "repeat_collect (make_model f ov) n h2 = (Inr bs, h')"
    and as: "as = a # bs"
    by (auto split: prod.splits sum.splits)
  from fresh_step [OF assms Suc.prems(1) step] obtain B h1 where
    d: "definition_fn f h = (Inr a, h1)" and B: "lookup h1 a = Some B"
    and h2: "h2 = h1[a := B ++ Ov]" and pre: "prefix h h1"
    and lo: "length h \<le> a" and hi: "a < length h1"
    by blast
  from Suc.prems(1) have ovlt: "ov < length h" and ovO: "h ! ov = Ov"
    by (auto simp: lookup_def split: if_splits)
  from pre have len: "length h \<le> length h1"
    by (simp add: prefix_length_le)
  have old: "h2 ! b = h ! b" if "b < length h" for b
    using that lo pre by (simp add: h2 prefix_nth)
  with ovlt ovO len have ov2: "lookup h2 ov = Some Ov"
    by (simp add: lookup_def h2)
  from Suc.IH [OF ov2 rest] have
    ih1: "length h2 \<le> length h'" and ih2: "\<forall>b < length h2. h' ! b = h2 ! b"
    and ih3: "\<forall>a \<in> set bs. length h2 \<le> a \<and>
        (\<exists>B h0 h1. definition_fn f h0 = (Inr a, h1) \<and> lookup h1 a = Some B \<and>
                   lookup h' a = Some (B ++ Ov))"
    by blast+
  have l2: "length h2 = length h1"
    by (simp add: h2)
  from ih2 hi l2 have "h' ! a = B ++ Ov"
    by (simp add: h2)
  with hi l2 ih1 have "lookup h' a = Some (B ++ Ov)"
    by (simp add: lookup_def)
  with d B lo have head: "length h \<le> a \<and>
        (\<exists>B h0 h1. definition_fn f h0 = (Inr a, h1) \<and> lookup h1 a = Some B \<and>
                   lookup h' a = Some (B ++ Ov))"
    by blast
  have "\<forall>b < length h. h' ! b = h ! b"
    using ih2 old len l2 by simp
  moreover have "length h \<le> length h'"
    using ih1 len l2 by simp
  moreover have "\<forall>a \<in> set as. length h \<le> a \<and>
        (\<exists>B h0 h1. definition_fn f h0 = (Inr a, h1) \<and> lookup h1 a = Some B \<and>
                   lookup h' a = Some (B ++ Ov))"
    using head ih3 len l2 unfolding as by (metis le_trans set_ConsD)
  ultimately show ?case
    by blast
qed

lemma test_definition_fresh: "fresh_blueprint test_definition"
  by (simp add: fresh_blueprint_def test_definition_def)

text \<open>
  C2. For a builder with no registered state callbacks whose blueprint returns a fresh
  object on every call, and an overrides object \<open>Ov\<close>, every model \<open>a\<close> in the array
  \<^verbatim>\<open>make\<close> returns is an output \<open>B\<close> of the blueprint with \<open>Ov\<close> merged on top: every key
  of \<open>Ov\<close> has the value \<open>Ov\<close> gives it, every other key has the value \<open>B\<close> gives it
  (or is absent as in \<open>B\<close>). The same holds of the model \<^verbatim>\<open>makeOne\<close> returns.
\<close>

theorem make_override_merge:
  assumes "stateCallbacks f = []"
    and "fresh_blueprint (definition_fn f)"
    and "lookup h ov = Some Ov"
    and "(\<exists>out. make f ov h = (Inr out, f', h') \<and> a \<in> set out) \<or>
         makeOne f ov h = (Inr (Some a), f', h')"
  shows "\<exists>B M h0 h1. definition_fn f h0 = (Inr a, h1) \<and> lookup h1 a = Some B \<and>
           lookup h' a = Some M \<and> M = B ++ Ov \<and>
           (\<forall>k v. Ov k = Some v \<longrightarrow> M k = Some v) \<and>
           (\<forall>k. Ov k = None \<longrightarrow> M k = B k)"
proof -
  from assms(4) obtain out where
    "repeat_collect (make_model f ov) (iterations f) h = (Inr out, h')" and "a \<in> set out"
    by (auto simp: makeOne_def make_repeat split: prod.splits sum.splits list.splits)
  from fresh_batch [OF assms(1,2,3) this(1)] this(2) obtain B h0 h1 where
    "definition_fn f h0 = (Inr a, h1)" "lookup h1 a = Some B" "lookup h' a = Some (B ++ Ov)"
    by blast
  moreover have "\<forall>k v. Ov k = Some v \<longrightarrow> (B ++ Ov) k = Some v"
    by simp
  moreover have "\<forall>k. Ov k = None \<longrightarrow> (B ++ Ov) k = B k"
    by (simp add: map_add_def)
  ultimately show ?thesis
    by blast
qed

theorem make_override_merge_witness:
  "stateCallbacks (snd (count (IntVal 2) TestFactory)) = [] \<and>
   fresh_blueprint (definition_fn (snd (count (IntVal 2) TestFactory))) \<and>
   lookup [[''example'' \<mapsto> ''FooBar'']] 0 = Some [''example'' \<mapsto> ''FooBar''] \<and>
   make (snd (count (IntVal 2) TestFactory)) 0 [[''example'' \<mapsto> ''FooBar'']] =
     (Inr [1, 2], TestFactory,
      [[''example'' \<mapsto> ''FooBar''], [''example'' \<mapsto> ''FooBar''], [''example'' \<mapsto> ''FooBar'']]) \<and>
   (2::nat) \<in> set [1, 2] \<and>
   (\<exists>B M h0 h1.
      definition_fn (snd (count (IntVal 2) TestFactory)) h0 = (Inr 2, h1) \<and>
      lookup h1 2 = Some B \<and>
      lookup [[''example'' \<mapsto> ''FooBar''], [''example'' \<mapsto> ''FooBar''],
              [''example'' \<mapsto> ''FooBar'']] 2 = Some M \<and>
      M = B ++ [''example'' \<mapsto> ''FooBar''] \<and>
      (\<forall>k v. [''example'' \<mapsto> ''FooBar''] k = Some v \<longrightarrow> M k = Some v) \<and>
      (\<forall>k. [''example'' \<mapsto> ''FooBar''] k = None \<longrightarrow> M k = B k))"
proof -
  have 1: "stateCallbacks (snd (count (IntVal 2) TestFactory)) = []"
    by (simp add: test_defs)
  have 2: "fresh_blueprint (definition_fn (snd (count (IntVal 2) TestFactory)))"
    by (simp add: count_def TestFactory_def new_factory_def test_definition_fresh)
  have 3: "lookup [[''example'' \<mapsto> ''FooBar'']] 0 = Some [''example'' \<mapsto> ''FooBar'']"
    by (simp add: lookup_def)
  have 4: "make (snd (count (IntVal 2) TestFactory)) 0 [[''example'' \<mapsto> ''FooBar'']] =
     (Inr [1, 2], TestFactory,
      [[''example'' \<mapsto> ''FooBar''], [''example'' \<mapsto> ''FooBar''], [''example'' \<mapsto> ''FooBar'']])"
    by (simp add: make_repeat test_defs numeral_2_eq_2)
  have 5: "(2::nat) \<in> set [1, 2]"
    by simp
  from 4 5 have 6:
    "(\<exists>out. make (snd (count (IntVal 2) TestFactory)) 0 [[''example'' \<mapsto> ''FooBar'']] =
        (Inr out, TestFactory,
         [[''example'' \<mapsto> ''FooBar''], [''example'' \<mapsto> ''FooBar''],
          [''example'' \<mapsto> ''FooBar'']]) \<and> 2 \<in> set out) \<or>
     makeOne (snd (count (IntVal 2) TestFactory)) 0 [[''example'' \<mapsto> ''FooBar'']] =
        (Inr (Some 2), TestFactory,
         [[''example'' \<mapsto> ''FooBar''], [''example'' \<mapsto> ''FooBar''],
          [''example'' \<mapsto> ''FooBar'']])"
    by blast
  from make_override_merge [OF 1 2 3 6] 1 2 3 4 5 show ?thesis
    by blast
qed

section \<open>The overrides object is not written\<close>

lemma map_add_self: "m ++ m = m"
  by (rule ext) (simp add: map_add_def split: option.splits)

lemma object_assign_keeps:
  "lookup h ov = Some Ov \<Longrightarrow> lookup (snd (object_assign t ov h)) ov = Some Ov"
  by (cases "t = ov")
     (auto simp: object_assign_def lookup_def map_add_self split: option.splits if_splits)

lemma reduce_callbacks_pure:
  "\<forall>cb \<in> set cbs. pure_callback cb \<Longrightarrow> prefix h (snd (reduce_callbacks cbs a h))"
proof (induction cbs arbitrary: a h)
  case Nil
  then show ?case by simp
next
  case (Cons cb cbs)
  from Cons.prems have p: "prefix h (snd (cb a h))"
    by (simp add: pure_callback_def)
  show ?case
  proof (cases "cb a h")
    case (Pair r h1)
    show ?thesis
    proof (cases r)
      case (Inl e)
      with Pair p show ?thesis by simp
    next
      case (Inr a1)
      from Cons.prems have "prefix h1 (snd (reduce_callbacks cbs a1 h1))"
        by (intro Cons.IH) simp
      with p Pair Inr show ?thesis
        by (auto intro: prefix_order.trans)
    qed
  qed
qed

lemma make_model_keeps:
  assumes "pure_blueprint (definition_fn f)"
    and "\<forall>cb \<in> set (stateCallbacks f). pure_callback cb"
    and "lookup h ov = Some Ov"
  shows "lookup (snd (make_model f ov h)) ov = Some Ov"
proof (cases "definition_fn f h")
  case (Pair r h1)
  from assms(1) Pair have "prefix h h1"
    unfolding pure_blueprint_def by (metis snd_conv)
  from prefix_lookup [OF this assms(3)] have ov1: "lookup h1 ov = Some Ov" .
  show ?thesis
  proof (cases r)
    case (Inl e)
    with Pair ov1 show ?thesis by (simp add: make_model_def)
  next
    case (Inr b)
    obtain r2 h2 where a: "object_assign b ov h1 = (r2, h2)"
      by (cases "object_assign b ov h1")
    with object_assign_keeps [OF ov1, of b] have ov2: "lookup h2 ov = Some Ov"
      by simp
    show ?thesis
    proof (cases r2)
      case (Inl e)
      with Pair Inr a ov2 show ?thesis by (simp add: make_model_def)
    next
      case (Inr m)
      from reduce_callbacks_pure [OF assms(2), of h2 m] ov2
      have "lookup (snd (reduce_callbacks (stateCallbacks f) m h2)) ov = Some Ov"
        by (rule prefix_lookup)
      with Pair \<open>r = Inr b\<close> a Inr show ?thesis by (simp add: make_model_def)
    qed
  qed
qed

lemma repeat_collect_keeps:
  assumes "\<And>s. P s \<Longrightarrow> P (snd (step s))"
  shows "P s \<Longrightarrow> P (snd (repeat_collect step n s))"
proof (induction n arbitrary: s)
  case 0
  then show ?case by simp
next
  case (Suc n)
  from assms [OF Suc.prems] have "P (snd (step s))" .
  from Suc.IH [OF this] this show ?case
    by (auto split: prod.splits sum.splits)
qed

lemma test_definition_pure: "pure_blueprint test_definition"
  by (simp add: pure_blueprint_def test_definition_def)

lemma copying_callback_pure: "pure_callback copying_callback"
  by (simp add: pure_callback_def copying_callback_def split: option.splits)

text \<open>
  C10. When the blueprint and the registered state callbacks are pure, the overrides object
  the caller passed holds after \<^verbatim>\<open>make\<close> and after \<^verbatim>\<open>makeOne\<close>, whether they return or
  throw, exactly what it held before: the merge writes into the blueprint's output only,
  also when that output is the overrides object itself.
\<close>

theorem make_keeps_overrides:
  assumes "pure_blueprint (definition_fn f)"
    and "\<forall>cb \<in> set (stateCallbacks f). pure_callback cb"
    and "lookup h ov = Some Ov"
  shows "lookup (snd (snd (make f ov h))) ov = Some Ov \<and>
         lookup (snd (snd (makeOne f ov h))) ov = Some Ov"
proof -
  have "lookup (snd (repeat_collect (make_model f ov) (iterations f) h)) ov = Some Ov"
    using assms(3)
    by (rule repeat_collect_keeps [where P = "\<lambda>s. lookup s ov = Some Ov", rotated])
       (rule make_model_keeps [OF assms(1,2)])
  then show ?thesis
    by (auto simp: makeOne_def make_repeat split: prod.splits sum.splits)
qed

theorem make_keeps_overrides_witness:
  "pure_blueprint (definition_fn (state copying_callback TestFactory)) \<and>
   stateCallbacks (state copying_callback TestFactory) = [copying_callback] \<and>
   pure_callback copying_callback \<and>
   lookup [[''example'' \<mapsto> ''FooBar'']] 0 = Some [''example'' \<mapsto> ''FooBar''] \<and>
   lookup (snd (snd (make (state copying_callback TestFactory) 0 [[''example'' \<mapsto> ''FooBar'']]))) 0
     = Some [''example'' \<mapsto> ''FooBar''] \<and>
   lookup (snd (snd (makeOne (state copying_callback TestFactory) 0 [[''example'' \<mapsto> ''FooBar'']]))) 0
     = Some [''example'' \<mapsto> ''FooBar'']"
proof -
  have 1: "pure_blueprint (definition_fn (state copying_callback TestFactory))"
    by (simp add: state_def TestFactory_def new_factory_def test_definition_pure)
  have 2: "\<forall>cb \<in> set (stateCallbacks (state copying_callback TestFactory)). pure_callback cb"
    by (simp add: state_def TestFactory_def new_factory_def copying_callback_pure)
  have 3: "lookup [[''example'' \<mapsto> ''FooBar'']] 0 = Some [''example'' \<mapsto> ''FooBar'']"
    by (simp add: lookup_def)
  have 4: "stateCallbacks (state copying_callback TestFactory) = [copying_callback]"
    by (simp add: state_def TestFactory_def new_factory_def)
  from make_keeps_overrides [OF 1 2 3] 1 3 4 copying_callback_pure show ?thesis
    by blast
qed

end
